theory Spec2Isabelle
  imports Complex_Main "HOL-Library.Multiset" "HOL-Library.Log_Nat"
begin

section \<open>Python values, errors and dictionaries\<close>

text \<open>
  The allocator of \<^verbatim>\<open>modules/portfolio_allocator.py\<close> and the dip-buy driver of
  \<^verbatim>\<open>modules/strategy.py\<close>. Every exception the modelled code can raise is a value of
  \<open>error\<close>.

  Money amounts, weights, ratios and prices are Python numbers, and there are two models
  of their arithmetic. The first takes them as exact reals (the specification calls them
  real-valued money); it carries the properties that are about control flow, errors,
  order and state, which do not depend on rounding. The second, whose definitions end in
  \<open>_double\<close>, rounds the result of every arithmetic operation to double precision, as
  the interpreter does; it carries the properties that are equalities between computed
  amounts.
\<close>

datatype error = ZeroDivisionError | ValueError string | KeyError string

definition py_div :: "real \<Rightarrow> real \<Rightarrow> error + real" where
  \<comment> \<open>\<^verbatim>\<open>x / y\<close>: true division, raising on a zero divisor.\<close>
  "py_div x y = (if y = 0 then Inl ZeroDivisionError else Inr (x / y))"

definition py_int :: "real \<Rightarrow> int" where
  \<comment> \<open>\<^verbatim>\<open>int(x)\<close>: truncation toward zero.\<close>
  "py_int x = (if 0 \<le> x then \<lfloor>x\<rfloor> else \<lceil>x\<rceil>)"

definition dict_get :: "'a option \<Rightarrow> 'a \<Rightarrow> 'a" where
  \<comment> \<open>\<^verbatim>\<open>d.get(key, default)\<close> on the optional field of a dictionary.\<close>
  "dict_get v d = (case v of None \<Rightarrow> d | Some x \<Rightarrow> x)"

definition truthy :: "real option \<Rightarrow> bool" where
  \<comment> \<open>\<^verbatim>\<open>if v:\<close> for a number or \<^verbatim>\<open>None\<close>.\<close>
  "truthy v = (case v of None \<Rightarrow> False | Some x \<Rightarrow> x \<noteq> 0)"

fun for_each :: "('a \<Rightarrow> error + 'b) \<Rightarrow> 'a list \<Rightarrow> error + 'b list" where
  \<comment> \<open>A \<^verbatim>\<open>for\<close> loop appending one result per element; the first raise ends it.\<close>
  "for_each f [] = Inr []"
| "for_each f (x # xs) =
     (case f x of
        Inl e \<Rightarrow> Inl e
      | Inr y \<Rightarrow> (case for_each f xs of Inl e \<Rightarrow> Inl e | Inr ys \<Rightarrow> Inr (y # ys)))"

section \<open>Double-precision arithmetic\<close>

text \<open>
  A double has a significand of 53 bits. \<open>exponent x\<close> is the \<open>e\<close> with
  \<open>2\<^sup>e \<le> |x| < 2\<^sup>e\<^sup>+\<^sup>1\<close>, and \<open>round_double x\<close> is the multiple of \<open>2\<^sup>e\<^sup>-\<^sup>5\<^sup>2\<close> nearest to
  \<open>x\<close>, the even one of two that are equally near. The range of the exponent is not
  bounded: overflow and subnormal numbers are left out, no amount of money comes near
  either.
\<close>

definition exponent :: "real \<Rightarrow> int" where
  "exponent x =
     (if 1 \<le> \<bar>x\<bar> then bitlen \<lfloor>\<bar>x\<bar>\<rfloor> - 1 else - bitlen (\<lceil>1 / \<bar>x\<bar>\<rceil> - 1))"

definition round_half_even :: "real \<Rightarrow> int" where
  "round_half_even y =
     (let f = \<lfloor>y\<rfloor>; d = y - real_of_int f in
      if d < 1 / 2 then f else if 1 / 2 < d then f + 1 else if even f then f else f + 1)"

definition round_double :: "real \<Rightarrow> real" where
  "round_double x =
     (if x = 0 then 0
      else let ulp = 2 powi (exponent x - 52)
           in real_of_int (round_half_even (x / ulp)) * ulp)"

definition py_div_double :: "real \<Rightarrow> real \<Rightarrow> error + real" where
  \<comment> \<open>\<^verbatim>\<open>x / y\<close> on doubles.\<close>
  "py_div_double x y = (if y = 0 then Inl ZeroDivisionError else Inr (round_double (x / y)))"

section \<open>Data model\<close>

text \<open>An entry of \<^verbatim>\<open>ETF_LIST\<close>; every key but code and name is optional.\<close>

record etf =
  etf_code :: string
  etf_name :: string
  etf_category :: "string option"
  etf_weight :: "real option"
  etf_custom_ratio :: "real option"
  etf_priority :: "int option"
  etf_enabled :: "bool option"

text \<open>The keys shared by an allocation line and a buy order.\<close>

record line =
  code :: string
  name :: string
  category :: string
  allocated_amount :: real
  priority :: int

record allocation = line +
  ratio :: real
  weight :: "real option"

record buy_order = line +
  current_price :: real
  quantity :: int
  actual_amount :: real
  remainder :: real

text \<open>
  The fields of \<^verbatim>\<open>PortfolioAllocator\<close> the allocation reads. \<open>category_limits\<close> maps a
  category to the value of its \<^verbatim>\<open>max_allocation\<close> key, if it has one.
\<close>

record allocator =
  allocation_method :: string
  dip_allocation_method :: "string option"
  category_limits :: "(string \<times> real option) list"
  active_etfs :: "etf list"

definition new_allocator ::
  "string \<Rightarrow> string option \<Rightarrow> (string \<times> real option) list \<Rightarrow> etf list
     \<Rightarrow> error + allocator" where
  \<comment> \<open>\<^verbatim>\<open>__init__\<close>: only the enabled entries are active, and there must be one.\<close>
  "new_allocator method dip_method limits etf_list =
     (let active = filter (\<lambda>e. dict_get (etf_enabled e) True) etf_list in
      if active = [] then Inl (ValueError ''no active ETF'')
      else Inr \<lparr>allocation_method = method, dip_allocation_method = dip_method,
                category_limits = limits, active_etfs = active\<rparr>)"

section \<open>Allocation\<close>

definition mk_allocation ::
  "etf \<Rightarrow> real \<Rightarrow> real \<Rightarrow> real option \<Rightarrow> allocation" where
  "mk_allocation e amount r w =
     \<lparr>code = etf_code e, name = etf_name e,
      category = dict_get (etf_category e) ''UNKNOWN'',
      allocated_amount = amount,
      priority = dict_get (etf_priority e) 999,
      ratio = r, weight = w\<rparr>"

definition equal_allocation :: "allocator \<Rightarrow> real \<Rightarrow> error + allocation list" where
  "equal_allocation a total_amount =
     (let count = length (active_etfs a) in
      case py_div total_amount (real count) of
        Inl e \<Rightarrow> Inl e
      | Inr amount_per_etf \<Rightarrow>
          \<comment> \<open>\<open>count\<close> is not zero in the loop: the division above has succeeded\<close>
          Inr (sort_key priority
                 (map (\<lambda>e. mk_allocation e amount_per_etf (1 / real count) None)
                      (active_etfs a))))"

fun category_totals ::
  "allocation list \<Rightarrow> (string \<rightharpoonup> real) \<Rightarrow> (string \<rightharpoonup> real)" where
  "category_totals [] totals = totals"
| "category_totals (alloc # rest) totals =
     category_totals rest
       (totals(category alloc \<mapsto> dict_get (totals (category alloc)) 0 + allocated_amount alloc))"

definition max_allocation :: "(string \<times> real option) list \<Rightarrow> string \<Rightarrow> real option" where
  \<comment> \<open>\<^verbatim>\<open>category_limits.get(cat, {}).get('max_allocation')\<close>\<close>
  "max_allocation limits cat = (case map_of limits cat of None \<Rightarrow> None | Some l \<Rightarrow> l)"

definition adjust_line ::
  "(string \<times> real option) list \<Rightarrow> (string \<rightharpoonup> real) \<Rightarrow> real \<Rightarrow> allocation
     \<Rightarrow> error + allocation" where
  \<comment> \<open>The body of the second loop of \<^verbatim>\<open>_apply_category_limits\<close>.\<close>
  "adjust_line limits totals total_amount alloc =
     (let cat = category alloc; max_limit = max_allocation limits cat in
      if truthy max_limit then
        (case totals cat of
           None \<Rightarrow> Inl (KeyError cat)
         | Some cat_total \<Rightarrow>
             (case py_div cat_total total_amount of
                Inl e \<Rightarrow> Inl e
              | Inr cat_ratio \<Rightarrow>
                  if cat_ratio > the max_limit then
                    (case py_div (the max_limit) cat_ratio of
                       Inl e \<Rightarrow> Inl e
                     | Inr scale_factor \<Rightarrow>
                         Inr (alloc\<lparr>allocated_amount := allocated_amount alloc * scale_factor,
                                    ratio := ratio alloc * scale_factor\<rparr>))
                  else Inr alloc))
      else Inr alloc)"

definition apply_category_limits ::
  "allocator \<Rightarrow> allocation list \<Rightarrow> real \<Rightarrow> error + allocation list" where
  "apply_category_limits a allocations total_amount =
     (if category_limits a = [] then Inr allocations
      else for_each
             (adjust_line (category_limits a) (category_totals allocations Map.empty) total_amount)
             allocations)"

definition weighted_allocation :: "allocator \<Rightarrow> real \<Rightarrow> error + allocation list" where
  "weighted_allocation a total_amount =
     (let total_weight = sum_list (map (\<lambda>e. dict_get (etf_weight e) 1) (active_etfs a)) in
      case for_each
             (\<lambda>e. let w = dict_get (etf_weight e) 1 in
                   case py_div w total_weight of
                     Inl err \<Rightarrow> Inl err
                   | Inr r \<Rightarrow> Inr (mk_allocation e (total_amount * r) r (Some w)))
             (active_etfs a) of
        Inl err \<Rightarrow> Inl err
      | Inr allocations \<Rightarrow>
          (case apply_category_limits a allocations total_amount of
             Inl err \<Rightarrow> Inl err
           | Inr adjusted \<Rightarrow> Inr (sort_key priority adjusted)))"

definition custom_allocation :: "allocator \<Rightarrow> real \<Rightarrow> error + allocation list" where
  "custom_allocation a total_amount =
     (let total_ratio = sum_list (map (\<lambda>e. dict_get (etf_custom_ratio e) 0) (active_etfs a)) in
      case for_each
             (\<lambda>e. case py_div (dict_get (etf_custom_ratio e) 0) total_ratio of
                     Inl err \<Rightarrow> Inl err
                   | Inr r \<Rightarrow> Inr (mk_allocation e (total_amount * r) r None))
             (active_etfs a) of
        Inl err \<Rightarrow> Inl err
      | Inr allocations \<Rightarrow> Inr (sort_key priority allocations))"

subsection \<open>Custom allocation in double precision\<close>




definition calculate_regular_allocation :: "allocator \<Rightarrow> real \<Rightarrow> error + allocation list" where
  "calculate_regular_allocation a total_amount =
     (if allocation_method a = ''EQUAL'' then equal_allocation a total_amount
      else if allocation_method a = ''WEIGHTED'' then weighted_allocation a total_amount
      else if allocation_method a = ''CUSTOM'' then custom_allocation a total_amount
      else Inl (ValueError (''Unknown allocation method: '' @ allocation_method a)))"

definition calculate_dip_allocation :: "allocator \<Rightarrow> real \<Rightarrow> error + allocation list" where
  "calculate_dip_allocation a total_amount =
     (let dip_method = dict_get (dip_allocation_method a) ''FOCUS'' in
      if dip_method = ''FOCUS'' then equal_allocation a total_amount
      else if dip_method = ''EQUAL'' then equal_allocation a total_amount
      else if dip_method = ''WEIGHTED'' then weighted_allocation a total_amount
      else equal_allocation a total_amount)"

definition calculate_allocation ::
  "allocator \<Rightarrow> real \<Rightarrow> string \<Rightarrow> error + allocation list" where
  "calculate_allocation a total_amount mode =
     (if mode = ''REGULAR'' then calculate_regular_allocation a total_amount
      else if mode = ''DIP'' then calculate_dip_allocation a total_amount
      else Inl (ValueError (''Unknown mode: '' @ mode)))"

section \<open>Quantity resolution\<close>

fun resolve_loop ::
  "allocation list \<Rightarrow> (string \<rightharpoonup> real) \<Rightarrow> buy_order list \<Rightarrow> real
     \<Rightarrow> error + (buy_order list \<times> real)" where
  \<comment> \<open>The first loop of \<^verbatim>\<open>calculate_buy_quantities\<close>, on \<open>buy_orders\<close> and \<open>total_remainder\<close>.\<close>
  "resolve_loop [] current_prices buy_orders total_remainder = Inr (buy_orders, total_remainder)"
| "resolve_loop (alloc # rest) current_prices buy_orders total_remainder =
     (case current_prices (code alloc) of
        None \<Rightarrow> resolve_loop rest current_prices buy_orders total_remainder
      | Some price \<Rightarrow>
          (case py_div (allocated_amount alloc) price of
             Inl e \<Rightarrow> Inl e
           | Inr d \<Rightarrow>
               (let qty = py_int d;
                    actual = real_of_int qty * price;
                    rem = allocated_amount alloc - actual
                in resolve_loop rest current_prices
                     (buy_orders @
                        [\<lparr>code = code alloc, name = name alloc, category = category alloc,
                          allocated_amount = allocated_amount alloc, priority = priority alloc,
                          current_price = price, quantity = qty, actual_amount = actual,
                          remainder = rem\<rparr>])
                     (total_remainder + rem))))"

fun redistribute_remainder ::
  "buy_order list \<Rightarrow> real \<Rightarrow> error + (buy_order list \<times> real)" where
  \<comment> \<open>\<^verbatim>\<open>_redistribute_remainder\<close>: the orders it returns, with the value its local
      \<open>total_remainder\<close> has when the loop ends (the amount it prints as left over).\<close>
  "redistribute_remainder [] total_remainder = Inr ([], total_remainder)"
| "redistribute_remainder (order # rest) total_remainder =
     (if total_remainder < current_price order then Inr (order # rest, total_remainder)
      else
        (case py_div total_remainder (current_price order) of
           Inl e \<Rightarrow> Inl e
         | Inr d \<Rightarrow>
             (let additional_qty = py_int d in
              if additional_qty > 0 then
                (let additional_amount = real_of_int additional_qty * current_price order in
                 case redistribute_remainder rest (total_remainder - additional_amount) of
                   Inl e \<Rightarrow> Inl e
                 | Inr (rest', r) \<Rightarrow>
                     Inr (order\<lparr>quantity := quantity order + additional_qty,
                                actual_amount := actual_amount order + additional_amount\<rparr> # rest',
                          r))
              else
                (case redistribute_remainder rest total_remainder of
                   Inl e \<Rightarrow> Inl e
                 | Inr (rest', r) \<Rightarrow> Inr (order # rest', r)))))"

definition buy_quantities_run ::
  "allocation list \<Rightarrow> (string \<rightharpoonup> real) \<Rightarrow> error + (buy_order list \<times> real)" where
  \<comment> \<open>\<^verbatim>\<open>calculate_buy_quantities\<close> with the money left unspent when it returns.\<close>
  "buy_quantities_run allocations current_prices =
     (case resolve_loop allocations current_prices [] 0 of
        Inl e \<Rightarrow> Inl e
      | Inr (buy_orders, total_remainder) \<Rightarrow>
          (let sorted_orders = sort_key priority buy_orders in
           if total_remainder > 0 then redistribute_remainder sorted_orders total_remainder
           else Inr (sorted_orders, total_remainder)))"

definition calculate_buy_quantities ::
  "allocation list \<Rightarrow> (string \<rightharpoonup> real) \<Rightarrow> error + buy_order list" where
  "calculate_buy_quantities allocations current_prices =
     (case buy_quantities_run allocations current_prices of
        Inl e \<Rightarrow> Inl e
      | Inr (buy_orders, r) \<Rightarrow> Inr buy_orders)"

subsection \<open>Quantity resolution in double precision\<close>

text \<open>
  The same three functions with every quotient, product, sum and difference rounded.
  Comparisons and \<^verbatim>\<open>int()\<close> are exact on doubles.
\<close>

fun resolve_loop_double ::
  "allocation list \<Rightarrow> (string \<rightharpoonup> real) \<Rightarrow> buy_order list \<Rightarrow> real
     \<Rightarrow> error + (buy_order list \<times> real)" where
  "resolve_loop_double [] current_prices buy_orders total_remainder =
     Inr (buy_orders, total_remainder)"
| "resolve_loop_double (alloc # rest) current_prices buy_orders total_remainder =
     (case current_prices (code alloc) of
        None \<Rightarrow> resolve_loop_double rest current_prices buy_orders total_remainder
      | Some price \<Rightarrow>
          (case py_div_double (allocated_amount alloc) price of
             Inl e \<Rightarrow> Inl e
           | Inr d \<Rightarrow>
               (let qty = py_int d;
                    actual = round_double (real_of_int qty * price);
                    rem = round_double (allocated_amount alloc - actual)
                in resolve_loop_double rest current_prices
                     (buy_orders @
                        [\<lparr>code = code alloc, name = name alloc, category = category alloc,
                          allocated_amount = allocated_amount alloc, priority = priority alloc,
                          current_price = price, quantity = qty, actual_amount = actual,
                          remainder = rem\<rparr>])
                     (round_double (total_remainder + rem)))))"

fun redistribute_remainder_double ::
  "buy_order list \<Rightarrow> real \<Rightarrow> error + (buy_order list \<times> real)" where
  "redistribute_remainder_double [] total_remainder = Inr ([], total_remainder)"
| "redistribute_remainder_double (order # rest) total_remainder =
     (if total_remainder < current_price order then Inr (order # rest, total_remainder)
      else
        (case py_div_double total_remainder (current_price order) of
           Inl e \<Rightarrow> Inl e
         | Inr d \<Rightarrow>
             (let additional_qty = py_int d in
              if additional_qty > 0 then
                (let additional_amount =
                       round_double (real_of_int additional_qty * current_price order) in
                 case redistribute_remainder_double rest
                        (round_double (total_remainder - additional_amount)) of
                   Inl e \<Rightarrow> Inl e
                 | Inr (rest', r) \<Rightarrow>
                     Inr (order\<lparr>quantity := quantity order + additional_qty,
                                actual_amount :=
                                  round_double (actual_amount order + additional_amount)\<rparr> # rest',
                          r))
              else
                (case redistribute_remainder_double rest total_remainder of
                   Inl e \<Rightarrow> Inl e
                 | Inr (rest', r) \<Rightarrow> Inr (order # rest', r)))))"

definition buy_quantities_run_double ::
  "allocation list \<Rightarrow> (string \<rightharpoonup> real) \<Rightarrow> error + (buy_order list \<times> real)" where
  "buy_quantities_run_double allocations current_prices =
     (case resolve_loop_double allocations current_prices [] 0 of
        Inl e \<Rightarrow> Inl e
      | Inr (buy_orders, total_remainder) \<Rightarrow>
          (let sorted_orders = sort_key priority buy_orders in
           if total_remainder > 0
           then redistribute_remainder_double sorted_orders total_remainder
           else Inr (sorted_orders, total_remainder)))"

section \<open>The dip-buy decision\<close>

record opportunity =
  opp_code :: string
  opp_name :: string
  opp_current_price :: real

text \<open>
  The state of \<^verbatim>\<open>TradingStrategy\<close> that \<^verbatim>\<open>execute_dip_buy\<close> reads and writes: the
  allocator it owns and the configured amount of a dip buy.
\<close>

record strategy =
  the_allocator :: allocator
  dip_buy_amount :: real

definition prices_of :: "opportunity list \<Rightarrow> (string \<rightharpoonup> real)" where
  \<comment> \<open>\<^verbatim>\<open>{opp['code']: opp['current_price'] for opp in opportunities}\<close>: a later entry wins.\<close>
  "prices_of opportunities = map_of (rev (map (\<lambda>opp. (opp_code opp, opp_current_price opp)) opportunities))"

definition execute_dip_buy ::
  "strategy \<Rightarrow> real \<Rightarrow> (buy_order list \<Rightarrow> error + bool) \<Rightarrow> opportunity list
     \<Rightarrow> (error + bool) \<times> strategy" where
  \<comment> \<open>\<open>balance\<close> is what \<^verbatim>\<open>api.get_balance()\<close> answers; \<open>route\<close> stands for steps 4 and 5
      (printing the plan, then submitting or announcing it), which only use the
      brokerage, record and notification collaborators.\<close>
  "execute_dip_buy st balance route opportunities =
     (if opportunities = [] then (Inr False, st)
      else
        (let dip_amount = dip_buy_amount st in
         if balance < dip_amount then (Inr False, st)
         else
           (let dip_codes = map opp_code opportunities;
                original_etfs = active_etfs (the_allocator st);
                narrowed = st\<lparr>the_allocator := (the_allocator st)
                               \<lparr>active_etfs := filter (\<lambda>e. etf_code e \<in> set dip_codes) original_etfs\<rparr>\<rparr>
            in case calculate_allocation (the_allocator narrowed) dip_amount ''DIP'' of
                 Inl e \<Rightarrow> (Inl e, narrowed)
               | Inr allocations \<Rightarrow>
                   (case calculate_buy_quantities allocations (prices_of opportunities) of
                      Inl e \<Rightarrow> (Inl e, narrowed)
                    | Inr buy_orders \<Rightarrow>
                        (route buy_orders,
                         narrowed\<lparr>the_allocator := (the_allocator narrowed)
                                    \<lparr>active_etfs := original_etfs\<rparr>\<rparr>)))))"

section \<open>Vocabulary of the properties\<close>

text \<open>
  What the first loop of \<^verbatim>\<open>calculate_buy_quantities\<close> appends for an allocation line
  whose code has a price, and how \<^verbatim>\<open>_redistribute_remainder\<close> may change an order:
  by \<open>k\<close> further units, paid at the order's price.
\<close>

definition resolves :: "(string \<rightharpoonup> real) \<Rightarrow> allocation \<Rightarrow> buy_order \<Rightarrow> bool" where
  "resolves current_prices alloc order \<longleftrightarrow>
     code order = code alloc \<and> allocated_amount order = allocated_amount alloc \<and>
     priority order = priority alloc \<and>
     current_prices (code alloc) = Some (current_price order) \<and>
     quantity order = py_int (allocated_amount alloc / current_price order) \<and>
     actual_amount order = real_of_int (quantity order) * current_price order \<and>
     remainder order = allocated_amount order - actual_amount order"

definition topped_up :: "buy_order \<Rightarrow> buy_order \<Rightarrow> bool" where
  "topped_up order order' \<longleftrightarrow>
     (\<exists>k\<ge>0. order' = order\<lparr>quantity := quantity order + k,
                            actual_amount := actual_amount order + real_of_int k * current_price order\<rparr>)"

text \<open>
  The redistribution rule of the specification, in the code's arithmetic: going through
  the orders, each order whose price the money left can pay is granted as many further
  units as \<^verbatim>\<open>int(left / price)\<close> gives, and what they cost is taken from the
  money left. \<open>served pre r pre' r'\<close> says that every order of \<open>pre\<close> was so served,
  starting with \<open>r\<close> and ending with \<open>r'\<close>; \<open>stops_at rest r'\<close> says that the pass is
  over: no order is left, or the next one costs more than \<open>r'\<close>.
\<close>

fun served :: "buy_order list \<Rightarrow> real \<Rightarrow> buy_order list \<Rightarrow> real \<Rightarrow> bool" where
  "served [] r [] r' \<longleftrightarrow> r' = r"
| "served (order # rest) r (order' # rest') r' \<longleftrightarrow>
     0 < current_price order \<and> current_price order \<le> r \<and>
     (let units = py_int (round_double (r / current_price order));
          amount = round_double (real_of_int units * current_price order)
      in order' = order\<lparr>quantity := quantity order + units,
                         actual_amount := round_double (actual_amount order + amount)\<rparr> \<and>
         served rest (round_double (r - amount)) rest' r')"
| "served _ _ _ _ \<longleftrightarrow> False"

definition stops_at :: "buy_order list \<Rightarrow> real \<Rightarrow> bool" where
  "stops_at rest r = (case rest of [] \<Rightarrow> True | order # _ \<Rightarrow> r < current_price order)"

definition order_summary :: "buy_order \<Rightarrow> string \<times> int \<times> real" where
  "order_summary order = (code order, quantity order, actual_amount order)"

definition plan_summary ::
  "allocator \<Rightarrow> real \<Rightarrow> string \<Rightarrow> (string \<rightharpoonup> real)
     \<Rightarrow> error + ((string \<times> int \<times> real) list \<times> real)" where
  \<comment> \<open>Allocation, then quantity resolution: code, quantity and actual amount of every
      order, and the money left unspent.\<close>
  "plan_summary a total_amount mode current_prices =
     (case calculate_allocation a total_amount mode of
        Inl e \<Rightarrow> Inl e
      | Inr allocations \<Rightarrow>
          (case buy_quantities_run allocations current_prices of
             Inl e \<Rightarrow> Inl e
           | Inr (buy_orders, r) \<Rightarrow> Inr (map order_summary buy_orders, r)))"


definition category_sum :: "allocation list \<Rightarrow> string \<Rightarrow> real" where
  "category_sum allocations cat =
     sum_list (map allocated_amount (filter (\<lambda>l. category l = cat) allocations))"




subsection \<open>Concrete inputs\<close>

text \<open>The end-to-end scenario of the specification: A (priority 1, weight 2), B (priority 2, weight 1).\<close>

definition scenario_allocator :: allocator where
  "scenario_allocator =
     \<lparr>allocation_method = ''WEIGHTED'', dip_allocation_method = None, category_limits = [],
      active_etfs =
        [\<lparr>etf_code = ''A'', etf_name = ''A'', etf_category = None, etf_weight = Some 2,
          etf_custom_ratio = None, etf_priority = Some 1, etf_enabled = None\<rparr>,
         \<lparr>etf_code = ''B'', etf_name = ''B'', etf_category = None, etf_weight = Some 1,
          etf_custom_ratio = None, etf_priority = Some 2, etf_enabled = None\<rparr>]\<rparr>"

definition scenario_prices :: "string \<rightharpoonup> real" where
  "scenario_prices = [''A'' \<mapsto> 150000, ''B'' \<mapsto> 40000]"

text \<open>The same money with the cheaper instrument first, so that redistribution buys a unit.\<close>

definition cheap_first_lines :: "allocation list" where
  "cheap_first_lines =
     [\<lparr>code = ''X'', name = ''X'', category = ''UNKNOWN'', allocated_amount = 100000,
       priority = 1, ratio = 1 / 3, weight = Some 1\<rparr>,
      \<lparr>code = ''Y'', name = ''Y'', category = ''UNKNOWN'', allocated_amount = 200000,
       priority = 2, ratio = 2 / 3, weight = Some 2\<rparr>]"

definition cheap_first_prices :: "string \<rightharpoonup> real" where
  "cheap_first_prices = [''X'' \<mapsto> 40000, ''Y'' \<mapsto> 150000]"

definition topped_order :: buy_order where
  "topped_order =
     \<lparr>code = ''X'', name = ''X'', category = ''UNKNOWN'', allocated_amount = 100000,
      priority = 1, current_price = 40000, quantity = 3, actual_amount = 120000,
      remainder = 20000\<rparr>"

definition stopped_order :: buy_order where
  "stopped_order =
     \<lparr>code = ''Y'', name = ''Y'', category = ''UNKNOWN'', allocated_amount = 200000,
      priority = 2, current_price = 150000, quantity = 1, actual_amount = 150000,
      remainder = 50000\<rparr>"

text \<open>
  Three lines that are not in order of priority, the last one cheap: what X and Y leave
  over would pay for Z.
\<close>

definition unsorted_lines :: "allocation list" where
  "unsorted_lines =
     [\<lparr>code = ''Y'', name = ''Y'', category = ''UNKNOWN'', allocated_amount = 200000,
       priority = 2, ratio = 2 / 3, weight = Some 2\<rparr>,
      \<lparr>code = ''X'', name = ''X'', category = ''UNKNOWN'', allocated_amount = 100000,
       priority = 1, ratio = 1 / 3, weight = Some 1\<rparr>,
      \<lparr>code = ''Z'', name = ''Z'', category = ''UNKNOWN'', allocated_amount = 4000,
       priority = 3, ratio = 1 / 75, weight = None\<rparr>]"

definition unsorted_prices :: "string \<rightharpoonup> real" where
  "unsorted_prices = [''X'' \<mapsto> 40000, ''Y'' \<mapsto> 150000, ''Z'' \<mapsto> 5000]"

definition cheap_last :: buy_order where
  "cheap_last =
     \<lparr>code = ''Z'', name = ''Z'', category = ''UNKNOWN'', allocated_amount = 4000,
      priority = 3, current_price = 5000, quantity = 0, actual_amount = 0,
      remainder = 4000\<rparr>"


text \<open>Two lines of 100 each, for prices that are missing, zero or negative.\<close>

definition halted_lines :: "allocation list" where
  "halted_lines =
     [\<lparr>code = ''X'', name = ''X'', category = ''UNKNOWN'', allocated_amount = 100,
       priority = 1, ratio = 1 / 2, weight = None\<rparr>,
      \<lparr>code = ''Y'', name = ''Y'', category = ''UNKNOWN'', allocated_amount = 100,
       priority = 2, ratio = 1 / 2, weight = None\<rparr>]"



text \<open>Two categories, and an allocator that caps the first.\<close>

definition tech_bond_lines :: "allocation list" where
  "tech_bond_lines =
     [\<lparr>code = ''X'', name = ''X'', category = ''TECH'', allocated_amount = 200000,
       priority = 1, ratio = 2 / 3, weight = Some 2\<rparr>,
      \<lparr>code = ''Y'', name = ''Y'', category = ''BOND'', allocated_amount = 100000,
       priority = 2, ratio = 1 / 3, weight = Some 1\<rparr>]"

definition capped_allocator :: "real \<Rightarrow> allocator" where
  "capped_allocator cap =
     \<lparr>allocation_method = ''WEIGHTED'', dip_allocation_method = None,
      category_limits = [(''TECH'', Some cap), (''BOND'', None)], active_etfs = []\<rparr>"

text \<open>A dip buy for A while the price source reports 0 for it.\<close>

definition halted_strategy :: strategy where
  "halted_strategy = \<lparr>the_allocator = scenario_allocator, dip_buy_amount = 250000\<rparr>"

definition halted_opportunity :: opportunity where
  "halted_opportunity = \<lparr>opp_code = ''A'', opp_name = ''A'', opp_current_price = 0\<rparr>"

section \<open>Properties of double-precision rounding\<close>

lemma exponent_bounds:
  assumes "x \<noteq> 0"
  shows "2 powi exponent x \<le> \<bar>x\<bar>" and "\<bar>x\<bar> < 2 powi (exponent x + 1)"
proof -
  define a where "a = \<bar>x\<bar>"
  with assms have apos: "0 < a" by simp
  have "2 powi exponent x \<le> a \<and> a < 2 powi (exponent x + 1)"
  proof (cases "1 \<le> a")
    case True
    define n where "n = \<lfloor>a\<rfloor>"
    with True have npos: "0 < n" by simp
    from bitlen_bounds[OF npos] have lo: "2 ^ nat (bitlen n - 1) \<le> n" and hi: "n < 2 ^ nat (bitlen n)"
      by simp_all
    from npos have b1: "1 \<le> bitlen n" by (simp add: bitlen_alt_def)
    have e: "exponent x = bitlen n - 1" using True by (simp add: exponent_def a_def n_def)
    have "2 powi (bitlen n - 1) = (2::real) ^ nat (bitlen n - 1)"
      using b1 by (simp add: power_int_nonneg_exp)
    also have "\<dots> = real_of_int (2 ^ nat (bitlen n - 1))" by simp
    also have "\<dots> \<le> real_of_int n" using lo by (simp only: of_int_le_iff)
    also have "\<dots> \<le> a" by (simp add: n_def)
    finally have lower: "2 powi (bitlen n - 1) \<le> a" .
    have "a < real_of_int (n + 1)" by (simp add: n_def)
    also have "\<dots> \<le> real_of_int (2 ^ nat (bitlen n))"
    proof -
      from hi have "n + 1 \<le> 2 ^ nat (bitlen n)" by simp
      then show ?thesis by (simp only: of_int_le_iff)
    qed
    also have "\<dots> = (2::real) ^ nat (bitlen n)" by simp
    also have "\<dots> = 2 powi (bitlen n - 1 + 1)" using b1 by (simp add: power_int_nonneg_exp)
    finally have "a < 2 powi (bitlen n - 1 + 1)" .
    with lower e show ?thesis by simp
  next
    case False
    define m where "m = \<lceil>1 / a\<rceil>"
    from False apos have inv: "1 < 1 / a" by simp
    then have m2: "2 \<le> m" unfolding m_def by (simp add: le_ceiling_iff)
    then have mpos: "0 < m - 1" by simp
    from bitlen_bounds[OF mpos] have lo: "2 ^ nat (bitlen (m - 1) - 1) \<le> m - 1"
      and hi: "m - 1 < 2 ^ nat (bitlen (m - 1))" by simp_all
    define b where "b = bitlen (m - 1)"
    from mpos have b1: "1 \<le> b" by (simp add: bitlen_alt_def b_def)
    have e: "exponent x = - b" using False by (simp add: exponent_def a_def m_def b_def)
    have "1 / a \<le> real_of_int m" by (simp add: m_def)
    also have "\<dots> \<le> real_of_int (2 ^ nat b)"
    proof -
      from hi have "m \<le> 2 ^ nat b" unfolding b_def by simp
      then show ?thesis by (simp only: of_int_le_iff)
    qed
    also have "\<dots> = (2::real) ^ nat b" by simp
    finally have "1 / a \<le> 2 ^ nat b" .
    with apos have "1 / 2 ^ nat b \<le> a"
      by (simp add: field_simps)
    moreover have "2 powi (- b) = 1 / (2::real) ^ nat b"
      using b1 by (simp add: power_int_minus_divide power_int_nonneg_exp)
    ultimately have lower: "2 powi (- b) \<le> a" by simp
    have "real_of_int (2 ^ nat (b - 1)) \<le> real_of_int (m - 1)" using lo unfolding b_def by (simp only: of_int_le_iff)
    also have "\<dots> < 1 / a" unfolding m_def using ceiling_correct[of "1 / a"] by simp
    finally have "(2::real) ^ nat (b - 1) < 1 / a" by simp
    with apos have "a < 1 / 2 ^ nat (b - 1)" by (simp add: field_simps)
    moreover have "2 powi (- b + 1) = 1 / (2::real) ^ nat (b - 1)"
    proof -
      have "- b + 1 = - (b - 1)" by simp
      then show ?thesis using b1 by (simp only: power_int_minus_divide) (simp add: power_int_nonneg_exp)
    qed
    ultimately have "a < 2 powi (- b + 1)" by simp
    with lower e show ?thesis by simp
  qed
  then show "2 powi exponent x \<le> \<bar>x\<bar>" and "\<bar>x\<bar> < 2 powi (exponent x + 1)"
    by (simp_all add: a_def)
qed



lemma round_half_even_int [simp]: "round_half_even (real_of_int m) = m"
  by (simp add: round_half_even_def)

lemma round_half_even_ge:
  assumes "real_of_int j \<le> y"
  shows "j \<le> round_half_even y"
proof -
  from assms have "j \<le> \<lfloor>y\<rfloor>" by (simp add: le_floor_iff)
  then show ?thesis by (simp add: round_half_even_def Let_def)
qed

lemma round_half_even_less:
  assumes "y < real_of_int j - 1 / 2"
  shows "round_half_even y < j"
proof -
  from assms have "y < real_of_int j" by simp
  then have f: "\<lfloor>y\<rfloor> \<le> j - 1" by (simp add: floor_less_iff)
  show ?thesis
  proof (cases "\<lfloor>y\<rfloor> = j - 1")
    case True
    with assms have "y - real_of_int \<lfloor>y\<rfloor> < 1 / 2" by simp
    with True show ?thesis by (simp add: round_half_even_def Let_def)
  next
    case False
    with f have "\<lfloor>y\<rfloor> + 1 < j" by simp
    then show ?thesis by (auto simp: round_half_even_def Let_def)
  qed
qed


lemma pow2_less_exp:
  assumes "(2::real) powi m < 2 powi n"
  shows "m < n"
proof (rule ccontr)
  assume "\<not> m < n"
  then have "n \<le> m" by simp
  then have "(2::real) powi n \<le> 2 powi m" by (intro power_int_increasing) simp_all
  with assms show False by simp
qed

lemma round_double_exact:
  assumes "x = real_of_int m * 2 powi k" and "\<bar>m\<bar> < 2 ^ 53"
  shows "round_double x = x"
proof (cases "x = 0")
  case True
  then show ?thesis by (simp add: round_double_def)
next
  case False
  define e where "e = exponent x"
  note b = exponent_bounds[OF False, folded e_def]
  have p2: "0 < (2::real) powi j" for j by (rule zero_less_power_int) simp
  have "\<bar>x\<bar> = real_of_int \<bar>m\<bar> * 2 powi k"
    using assms(1) p2[of k] by (simp add: abs_mult)
  also have "\<dots> < real_of_int (2 ^ 53) * 2 powi k"
    using assms(2) p2[of k] by (intro mult_strict_right_mono) (simp_all only: of_int_less_iff)
  also have "\<dots> = 2 powi (53 + k)"
    by (simp add: power_int_add)
  finally have "\<bar>x\<bar> < 2 powi (53 + k)" .
  with b(1) have "(2::real) powi e < 2 powi (53 + k)" by linarith
  then have "e < 53 + k" by (rule pow2_less_exp)
  then have d: "0 \<le> k - (e - 52)" by simp
  have "x / 2 powi (e - 52) = real_of_int m * 2 powi (k - (e - 52))"
    unfolding assms(1) by (simp add: power_int_diff)
  also have "\<dots> = real_of_int (m * 2 ^ nat (k - (e - 52)))"
    using d by (simp add: power_int_nonneg_exp)
  finally have "round_half_even (x / 2 powi (e - 52)) = m * 2 ^ nat (k - (e - 52))"
    by (simp only: round_half_even_int)
  then have "round_double x = real_of_int (m * 2 ^ nat (k - (e - 52))) * 2 powi (e - 52)"
    using False by (simp add: round_double_def Let_def e_def)
  also have "\<dots> = real_of_int m * (2 powi (k - (e - 52)) * 2 powi (e - 52))"
    using d by (simp add: power_int_nonneg_exp)
  also have "2 powi (k - (e - 52)) * 2 powi (e - 52) = (2::real) powi k"
    by (simp add: power_int_add[symmetric])
  finally show ?thesis by (simp add: assms(1))
qed

lemma round_double_int:
  assumes "\<bar>m\<bar> < 2 ^ 53"
  shows "round_double (real_of_int m) = real_of_int m"
  using round_double_exact[of "real_of_int m" m 0] assms by simp

lemma round_double_nonneg:
  assumes "0 \<le> x"
  shows "0 \<le> round_double x"
proof (cases "x = 0")
  case True
  then show ?thesis by (simp add: round_double_def)
next
  case False
  have p2: "0 < (2::real) powi j" for j by (rule zero_less_power_int) simp
  from assms p2[of "exponent x - 52"] have "real_of_int 0 \<le> x / 2 powi (exponent x - 52)" by simp
  from round_half_even_ge[OF this] p2[of "exponent x - 52"] False show ?thesis
    by (simp add: round_double_def Let_def)
qed

lemma floor_round_double_divide:
  fixes a p :: int
  assumes "0 \<le> a" and "0 < p" and "a < 2 ^ 53"
  shows "\<lfloor>round_double (real_of_int a / real_of_int p)\<rfloor> = a div p"
proof (cases "a = 0")
  case True
  then show ?thesis by (simp add: round_double_def)
next
  case False
  define x where "x = real_of_int a / real_of_int p"
  define n where "n = a div p"
  define e where "e = exponent x"
  from False assms have xpos: "0 < x" by (simp add: x_def)
  then have xnz: "x \<noteq> 0" by simp
  note b = exponent_bounds[OF xnz, folded e_def]
  have p2: "0 < (2::real) powi j" for j by (rule zero_less_power_int) simp
  have xa: "x \<le> real_of_int a"
  proof -
    from assms have "1 \<le> real_of_int p" by simp
    with assms(1) have "real_of_int a / real_of_int p \<le> real_of_int a / 1"
      by (intro divide_left_mono) simp_all
    then show ?thesis by (simp add: x_def)
  qed
  have "real_of_int a < real_of_int (2 ^ 53)" using assms(3) by (simp only: of_int_less_iff)
  then have a53: "real_of_int a < 2 powi 53" by simp
  from b(1) xpos xa a53 have "(2::real) powi e < 2 powi 53" by simp
  then have "e < 53" by (rule pow2_less_exp)
  then have e52: "e \<le> 52" by simp
  define c :: int where "c = 2 ^ nat (52 - e)"
  have cpos: "0 < c" by (simp add: c_def)
  have ulp: "(2::real) powi (e - 52) = 1 / real_of_int c"
  proof -
    have "e - 52 = - (52 - e)" by simp
    then have "(2::real) powi (e - 52) = 1 / 2 powi (52 - e)"
      by (simp only: power_int_minus_divide)
    also have "(2::real) powi (52 - e) = real_of_int c"
      using e52 by (simp add: c_def power_int_nonneg_exp)
    finally show ?thesis .
  qed
  define y where "y = x * real_of_int c"
  have rd: "round_double x = real_of_int (round_half_even y) / real_of_int c"
    using xnz by (simp add: round_double_def Let_def e_def[symmetric] ulp y_def)
  have nx: "real_of_int n \<le> x" and xn: "x < real_of_int n + 1"
  proof -
    have "n = \<lfloor>x\<rfloor>" by (simp add: n_def x_def floor_divide_of_int_eq)
    then show "real_of_int n \<le> x" "x < real_of_int n + 1" by linarith+
  qed
  \<comment> \<open>lower bound\<close>
  have "real_of_int (n * c) \<le> y"
    using nx cpos by (simp add: y_def mult_right_mono)
  from round_half_even_ge[OF this] have "n * c \<le> round_half_even y" .
  then have "real_of_int (n * c) \<le> real_of_int (round_half_even y)" by (simp only: of_int_le_iff)
  then have lower: "real_of_int n \<le> round_double x"
    using cpos by (simp add: rd field_simps)
  \<comment> \<open>upper bound: \<open>a\<close> is at least one below the next multiple of \<open>p\<close>\<close>
  have "a < (n + 1) * p"
  proof -
    have "a div p * p + a mod p = a" by (rule div_mult_mod_eq)
    moreover have "a mod p < p" using assms(2) by simp
    moreover have "(n + 1) * p = a div p * p + p" by (simp add: n_def algebra_simps)
    ultimately show ?thesis by linarith
  qed
  then have "a + 1 \<le> (n + 1) * p" by simp
  then have "real_of_int (a + 1) \<le> real_of_int ((n + 1) * p)" by (simp only: of_int_le_iff)
  then have ax: "x \<le> real_of_int n + 1 - 1 / real_of_int p"
    using assms(2) by (simp add: x_def field_simps)
  \<comment> \<open>the price is below two units in the last place of the quotient's scale\<close>
  have "real_of_int p * 2 powi e \<le> real_of_int a"
    using b(1) xpos assms(2) by (simp add: x_def field_simps)
  with a53 have pe: "real_of_int p * 2 powi e < 2 powi 53" by linarith
  have ce: "real_of_int c * 2 powi e = 2 powi 52"
  proof -
    have "(2::real) powi (52 - e) * 2 powi e = 2 powi ((52 - e) + e)"
      by (rule power_int_add[symmetric]) simp
    then have "(2::real) powi (52 - e) * 2 powi e = 2 powi 52" by simp
    moreover have "(2::real) powi (52 - e) = real_of_int c"
      using e52 by (simp add: c_def power_int_nonneg_exp)
    ultimately show ?thesis by simp
  qed
  have "(2::real) powi 53 = 2 * 2 powi 52" by simp
  with pe ce have "real_of_int p * 2 powi e < (2 * real_of_int c) * 2 powi e"
    by (simp only: mult.assoc)
  with p2[of e] have pc: "real_of_int p < 2 * real_of_int c"
    by (simp only: mult_less_cancel_right_pos)
  have "x * real_of_int c \<le> (real_of_int n + 1 - 1 / real_of_int p) * real_of_int c"
    using ax cpos by (intro mult_right_mono) simp_all
  also have "\<dots> = (real_of_int n + 1) * real_of_int c - real_of_int c / real_of_int p"
    by (simp add: algebra_simps)
  finally have "y \<le> (real_of_int n + 1) * real_of_int c - real_of_int c / real_of_int p"
    by (simp add: y_def)
  moreover have "1 / 2 < real_of_int c / real_of_int p"
    using pc assms(2) by (simp add: field_simps)
  ultimately have "y < (real_of_int n + 1) * real_of_int c - 1 / 2" by linarith
  then have "y < real_of_int ((n + 1) * c) - 1 / 2" by simp
  from round_half_even_less[OF this] have "round_half_even y \<le> (n + 1) * c - 1" by simp
  then have "real_of_int (round_half_even y) \<le> real_of_int ((n + 1) * c - 1)"
    by (simp only: of_int_le_iff)
  then have "round_double x \<le> real_of_int n + 1 - 1 / real_of_int c"
    using cpos by (simp add: rd field_simps)
  moreover have "0 < 1 / real_of_int c" using cpos by simp
  ultimately have upper: "round_double x < real_of_int n + 1" by linarith
  from lower upper have "\<lfloor>round_double x\<rfloor> = n" by linarith
  then show ?thesis by (simp add: x_def n_def)
qed


section \<open>Properties of quantity resolution\<close>

lemmas allocation_defs =
  calculate_allocation_def calculate_regular_allocation_def calculate_dip_allocation_def
  weighted_allocation_def equal_allocation_def custom_allocation_def
  py_div_def dict_get_def mk_allocation_def apply_category_limits_def

subsection \<open>The resolving loop\<close>

lemma resolve_loop_append:
  "resolve_loop (xs @ ys) p bo tr =
     (case resolve_loop xs p bo tr of Inl e \<Rightarrow> Inl e | Inr (bo', tr') \<Rightarrow> resolve_loop ys p bo' tr')"
  by (induction xs arbitrary: bo tr) (auto simp: Let_def split: option.splits sum.splits)

lemma resolve_loop_zero_price:
  "\<exists>l\<in>set al. p (code l) = Some 0 \<Longrightarrow> resolve_loop al p bo tr = Inl ZeroDivisionError"
  by (induction al arbitrary: bo tr)
     (auto simp: Let_def py_div_def split: option.splits sum.splits)

lemma resolve_loop_ok:
  "\<forall>l\<in>set al. p (code l) \<noteq> Some 0 \<Longrightarrow> \<exists>os r. resolve_loop al p bo tr = Inr (os, r)"
  by (induction al arbitrary: bo tr)
     (auto simp: Let_def py_div_def split: option.splits sum.splits)

lemma resolve_loop_inv:
  "resolve_loop al p bo tr = Inr (os, r) \<Longrightarrow>
   \<exists>new. os = bo @ new \<and> list_all2 (resolves p) (filter (\<lambda>l. p (code l) \<noteq> None) al) new \<and>
         r = tr + sum_list (map remainder new)"
proof (induction al arbitrary: bo tr)
  case Nil
  then show ?case by simp
next
  case (Cons a al)
  show ?case
  proof (cases "p (code a)")
    case None
    with Cons show ?thesis by simp
  next
    case (Some price)
    with Cons.prems have nz: "price \<noteq> 0"
      by (auto simp: py_div_def split: if_splits)
    define o1 :: buy_order where "o1 = \<lparr>code = code a, name = name a, category = category a,
                          allocated_amount = allocated_amount a, priority = priority a,
                          current_price = price, quantity = py_int (allocated_amount a / price),
                          actual_amount = real_of_int (py_int (allocated_amount a / price)) * price,
                          remainder = allocated_amount a - real_of_int (py_int (allocated_amount a / price)) * price\<rparr>"
    from Cons.prems Some nz have "resolve_loop al p (bo @ [o1]) (tr + remainder o1) = Inr (os, r)"
      by (simp add: py_div_def Let_def o1_def)
    from Cons.IH[OF this] obtain new where new: "os = (bo @ [o1]) @ new"
      "list_all2 (resolves p) (filter (\<lambda>l. p (code l) \<noteq> None) al) new"
      "r = tr + remainder o1 + sum_list (map remainder new)" by blast
    have "resolves p a o1" using Some by (simp add: resolves_def o1_def)
    with new Some show ?thesis
      by (intro exI[of _ "o1 # new"]) simp
  qed
qed

subsection \<open>The redistribution loop\<close>

lemma redistribute_rel:
  "redistribute_remainder os r = Inr (os', r') \<Longrightarrow>
   list_all2 topped_up os os' \<and>
   sum_list (map actual_amount os') + r' = sum_list (map actual_amount os) + r"
proof (induction os arbitrary: r os' r')
  case Nil
  then show ?case by simp
next
  case (Cons a os)
  have refl: "topped_up x x" for x
    unfolding topped_up_def by (intro exI[of _ 0]) simp
  show ?case
  proof (cases "r < current_price a")
    case True
    with Cons.prems show ?thesis
      by (auto simp: list_all2_refl refl intro!: list_all2_refl)
  next
    case False
    with Cons.prems have nz: "current_price a \<noteq> 0"
      by (auto simp: py_div_def split: if_splits)
    define q where "q = py_int (r / current_price a)"
    show ?thesis
    proof (cases "q > 0")
      case True
      with Cons.prems False nz obtain rest' where
        rec: "redistribute_remainder os (r - real_of_int q * current_price a) = Inr (rest', r')"
        and os': "os' = a\<lparr>quantity := quantity a + q,
                            actual_amount := actual_amount a + real_of_int q * current_price a\<rparr> # rest'"
        by (auto simp: Let_def py_div_def q_def split: sum.splits prod.splits)
      have "topped_up a (a\<lparr>quantity := quantity a + q,
                            actual_amount := actual_amount a + real_of_int q * current_price a\<rparr>)"
        unfolding topped_up_def using True by (intro exI[of _ q]) simp
      with Cons.IH[OF rec] os' show ?thesis by simp
    next
      case nonpos: False
      with Cons.prems False nz obtain rest' where
        rec: "redistribute_remainder os r = Inr (rest', r')" and os': "os' = a # rest'"
        by (auto simp: Let_def py_div_def q_def split: sum.splits prod.splits)
      with Cons.IH[OF rec] refl[of a] show ?thesis by simp
    qed
  qed
qed

lemma redistribute_ok:
  "\<forall>order\<in>set os. current_price order \<noteq> 0 \<Longrightarrow> \<exists>os' r'. redistribute_remainder os r = Inr (os', r')"
proof (induction os arbitrary: r)
  case Nil
  then show ?case by simp
next
  case (Cons a os)
  then have nz: "current_price a \<noteq> 0" and rest: "\<forall>order\<in>set os. current_price order \<noteq> 0" by simp_all
  from Cons.IH[OF rest] show ?case using nz
    by (auto simp: Let_def py_div_def split: sum.splits prod.splits) (metis Inl_Inr_False)+
qed

lemma redistribute_priority:
  "redistribute_remainder os r = Inr (os', r') \<Longrightarrow> map priority os' = map priority os"
  by (induction os arbitrary: r os' r')
     (auto simp: Let_def split: sum.splits if_splits prod.splits)

lemma redistribute_stops:
  "redistribute_remainder pre r = Inr (pre', r') \<Longrightarrow> r' < current_price order \<Longrightarrow>
   redistribute_remainder (pre @ order # post) r = Inr (pre' @ order # post, r')"
proof (induction pre arbitrary: r pre' r')
  case Nil
  then show ?case by simp
next
  case (Cons p ps)
  show ?case
  proof (cases "r < current_price p")
    case True
    with Cons.prems show ?thesis by auto
  next
    case False
    with Cons.prems Cons.IH show ?thesis
      by (auto simp: Let_def split: sum.splits if_splits prod.splits)
  qed
qed

subsection \<open>The whole resolution\<close>




lemma list_all2_in_set2:
  "list_all2 P xs ys \<Longrightarrow> y \<in> set ys \<Longrightarrow> \<exists>x\<in>set xs. P x y"
  by (induction rule: list_all2_induct) auto

lemma run_ok:
  assumes "\<forall>l\<in>set al. p (code l) \<noteq> Some 0"
  shows "\<exists>os r. buy_quantities_run al p = Inr (os, r)"
proof -
  from resolve_loop_ok[OF assms] obtain bo tr where res: "resolve_loop al p [] 0 = Inr (bo, tr)"
    by blast
  from resolve_loop_inv[OF res] have all: "list_all2 (resolves p) (filter (\<lambda>l. p (code l) \<noteq> None) al) bo"
    by simp
  have "current_price order \<noteq> 0" if "order \<in> set bo" for order
  proof -
    from list_all2_in_set2[OF all that] obtain l where "l \<in> set al" "resolves p l order"
      by auto
    with assms show ?thesis by (auto simp: resolves_def)
  qed
  then have "\<forall>order\<in>set (sort_key priority bo). current_price order \<noteq> 0" by simp
  from redistribute_ok[OF this] res show ?thesis
    by (auto simp: buy_quantities_run_def Let_def)
qed

lemma run_cases:
  assumes "buy_quantities_run al p = Inr (os, r)"
  obtains bo tr where "resolve_loop al p [] 0 = Inr (bo, tr)"
    "list_all2 (resolves p) (filter (\<lambda>l. p (code l) \<noteq> None) al) bo"
    "list_all2 topped_up (sort_key priority bo) os"
proof -
  from assms obtain bo tr where res: "resolve_loop al p [] 0 = Inr (bo, tr)"
    by (auto simp: buy_quantities_run_def split: sum.splits)
  from resolve_loop_inv[OF res] have all: "list_all2 (resolves p) (filter (\<lambda>l. p (code l) \<noteq> None) al) bo"
    by simp
  have refl: "topped_up x x" for x
    unfolding topped_up_def by (intro exI[of _ 0]) simp
  have "list_all2 topped_up (sort_key priority bo) os"
  proof (cases "tr > 0")
    case True
    with assms res have "redistribute_remainder (sort_key priority bo) tr = Inr (os, r)"
      by (simp add: buy_quantities_run_def)
    from redistribute_rel[OF this] show ?thesis by simp
  next
    case False
    with assms res have "os = sort_key priority bo" by (auto simp: buy_quantities_run_def)
    then show ?thesis by (simp add: list_all2_refl refl)
  qed
  with res all that show thesis by blast
qed

lemma floor_remainder_bounds:
  fixes a price :: real
  assumes "0 < price"
  shows "0 \<le> a - real_of_int \<lfloor>a / price\<rfloor> * price" "a - real_of_int \<lfloor>a / price\<rfloor> * price < price"
  using floor_divide_lower[OF assms, of a] floor_divide_upper[OF assms, of a]
  by (simp_all add: algebra_simps)

lemma run_sorted:
  "buy_quantities_run al p = Inr (os, r) \<Longrightarrow> sorted (map priority os)"
  by (auto simp: buy_quantities_run_def Let_def split: sum.splits if_splits prod.splits
      dest!: redistribute_priority)

subsection \<open>Evaluations\<close>

lemma scenario_allocation:
  "calculate_allocation scenario_allocator 300000 ''REGULAR'' =
     Inr [\<lparr>code = ''A'', name = ''A'', category = ''UNKNOWN'', allocated_amount = 200000,
           priority = 1, ratio = 2 / 3, weight = Some 2\<rparr>,
          \<lparr>code = ''B'', name = ''B'', category = ''UNKNOWN'', allocated_amount = 100000,
           priority = 2, ratio = 1 / 3, weight = Some 1\<rparr>]"
  by (simp add: scenario_allocator_def allocation_defs)

lemma cheap_first_run:
  "buy_quantities_run cheap_first_lines cheap_first_prices
     = Inr ([topped_order, stopped_order], 30000)"
  by (simp add: buy_quantities_run_def cheap_first_lines_def cheap_first_prices_def
      topped_order_def stopped_order_def py_div_def py_int_def)

lemma cheap_first_positive:
  "\<forall>l\<in>set cheap_first_lines. \<forall>price. cheap_first_prices (code l) = Some price \<longrightarrow> 0 < price"
  by (simp add: cheap_first_lines_def cheap_first_prices_def)

lemma cheap_first_returned:
  "calculate_buy_quantities cheap_first_lines cheap_first_prices
     = Inr [topped_order, stopped_order]"
  by (simp add: calculate_buy_quantities_def cheap_first_run)

section \<open>The end-to-end scenario (C1)\<close>

text \<open>
  C1, as the code has it: for the universe A (priority 1, weight 2), B (priority 2,
  weight 1) with no category limits, WEIGHTED allocation of 300000 and quantity
  resolution at the prices A: 150000, B: 40000 give A quantity 1 (actual 150000) and
  B quantity 2 (actual 80000), with 70000 left unspent: the redistribution loop meets A
  first, whose price is above the 70000 left, and ends there.
\<close>

theorem scenario_plan:
  "plan_summary scenario_allocator 300000 ''REGULAR'' scenario_prices =
     Inr ([(''A'', 1, 150000), (''B'', 2, 80000)], 70000)"
  by (simp add: plan_summary_def scenario_allocation buy_quantities_run_def scenario_prices_def
      py_div_def py_int_def order_summary_def)

text \<open>C1 as stated (B quantity 3, actual 120000, 30000 unspent) is not what the code returns.\<close>

theorem scenario_plan_counterexample:
  "plan_summary scenario_allocator 300000 ''REGULAR'' scenario_prices \<noteq>
     Inr ([(''A'', 1, 150000), (''B'', 3, 120000)], 30000)"
  by (simp add: plan_summary_def scenario_allocation buy_quantities_run_def scenario_prices_def
      py_div_def py_int_def order_summary_def)

section \<open>Conservation of money (C2)\<close>


subsection \<open>Whole numbers are computed exactly\<close>

text \<open>
  On non-negative whole amounts and positive whole prices whose total stays below
  \<open>2\<^sup>5\<^sup>3\<close>, every quotient is truncated to the right quantity and every product, sum and
  difference is a whole number below \<open>2\<^sup>5\<^sup>3\<close>, hence a double: the resolution in double
  precision is the exact one.
\<close>

lemma round_double_whole:
  assumes "x \<in> \<int>" and "0 \<le> x" and "x < 2 ^ 53"
  shows "round_double x = x"
proof -
  from assms(1) obtain m where m: "x = real_of_int m" by (auto elim: Ints_cases)
  from assms(2,3) m have "0 \<le> m" and "real_of_int m < real_of_int (2 ^ 53)" by simp_all
  then have "0 \<le> m" and "m < 2 ^ 53" by (simp_all only: of_int_less_iff)
  then have "\<bar>m\<bar> < 2 ^ 53" by simp
  from round_double_int[OF this] m show ?thesis by simp
qed

lemma whole_quotient_truncates:
  assumes "a \<in> \<int>" and "0 \<le> a" and "a < 2 ^ 53" and "p \<in> \<int>" and "0 < p"
  shows "py_int (round_double (a / p)) = \<lfloor>a / p\<rfloor>"
    and "py_int (a / p) = \<lfloor>a / p\<rfloor>"
proof -
  from assms(1,4) obtain ai pi where ap: "a = real_of_int ai" "p = real_of_int pi"
    by (auto elim!: Ints_cases)
  with assms have i: "0 \<le> ai" "0 < pi" by simp_all
  have "ai < 2 ^ 53"
  proof -
    from assms(3) ap have "real_of_int ai < real_of_int (2 ^ 53)" by simp
    then show ?thesis by (simp only: of_int_less_iff)
  qed
  from floor_round_double_divide[OF i this]
  have "\<lfloor>round_double (a / p)\<rfloor> = ai div pi" by (simp add: ap)
  moreover have "\<lfloor>a / p\<rfloor> = ai div pi" by (simp add: ap floor_divide_of_int_eq)
  moreover have "0 \<le> round_double (a / p)"
    using assms by (intro round_double_nonneg) simp
  moreover have "0 \<le> a / p" using assms by simp
  ultimately show "py_int (round_double (a / p)) = \<lfloor>a / p\<rfloor>" "py_int (a / p) = \<lfloor>a / p\<rfloor>"
    by (simp_all add: py_int_def)
qed

lemma whole_remainder:
  assumes "a \<in> \<int>" and "0 \<le> a" and "p \<in> \<int>" and "0 < p"
  shows "real_of_int \<lfloor>a / p\<rfloor> * p \<in> \<int>" and "0 \<le> real_of_int \<lfloor>a / p\<rfloor> * p"
    and "real_of_int \<lfloor>a / p\<rfloor> * p \<le> a"
    and "a - real_of_int \<lfloor>a / p\<rfloor> * p \<in> \<int>"
proof -
  show "real_of_int \<lfloor>a / p\<rfloor> * p \<in> \<int>" using assms(3) by simp
  with assms(1) show "a - real_of_int \<lfloor>a / p\<rfloor> * p \<in> \<int>" by simp
  have "0 \<le> a / p" using assms by simp
  then have "0 \<le> \<lfloor>a / p\<rfloor>" by simp
  with assms(4) show "0 \<le> real_of_int \<lfloor>a / p\<rfloor> * p" by simp
  from floor_divide_lower[OF assms(4), of a] show "real_of_int \<lfloor>a / p\<rfloor> * p \<le> a" .
qed

lemma sum_list_amounts_nonneg:
  "\<forall>l\<in>set al. allocated_amount l \<in> \<int> \<and> 0 \<le> allocated_amount l
   \<Longrightarrow> 0 \<le> sum_list (map allocated_amount al)"
  by (auto intro!: sum_list_nonneg)

lemma resolve_loop_double_whole:
  assumes "\<forall>l\<in>set al. allocated_amount l \<in> \<int> \<and> 0 \<le> allocated_amount l"
      and "\<forall>l\<in>set al. \<forall>price. p (code l) = Some price \<longrightarrow> price \<in> \<int> \<and> 0 < price"
      and "T \<in> \<int>" and "0 \<le> T"
      and "T + sum_list (map allocated_amount al) < 2 ^ 53"
  shows "resolve_loop_double al p bo T = resolve_loop al p bo T"
  using assms
proof (induction al arbitrary: bo T)
  case Nil
  then show ?case by simp
next
  case (Cons l al)
  let ?a = "allocated_amount l"
  from Cons.prems(1) have a: "?a \<in> \<int>" "0 \<le> ?a"
    and rest: "\<forall>l\<in>set al. allocated_amount l \<in> \<int> \<and> 0 \<le> allocated_amount l" by simp_all
  from Cons.prems(2) have prest:
    "\<forall>l\<in>set al. \<forall>price. p (code l) = Some price \<longrightarrow> price \<in> \<int> \<and> 0 < price" by simp
  note s0 = sum_list_amounts_nonneg[OF rest]
  from Cons.prems(5) have bound: "T + ?a + sum_list (map allocated_amount al) < 2 ^ 53"
    by (simp add: algebra_simps)
  show ?case
  proof (cases "p (code l)")
    case None
    from bound a(2) have "T + sum_list (map allocated_amount al) < 2 ^ 53" by linarith
    from Cons.IH[OF rest prest Cons.prems(3,4) this] None show ?thesis by simp
  next
    case (Some price)
    with Cons.prems(2) have pr: "price \<in> \<int>" "0 < price" by simp_all
    from bound s0 Cons.prems(4) have a53: "?a < 2 ^ 53" by linarith
    note q = whole_quotient_truncates[OF a a53 pr]
    note r = whole_remainder[OF a pr]
    let ?q = "\<lfloor>?a / price\<rfloor>"
    let ?act = "real_of_int ?q * price"
    have act: "round_double ?act = ?act"
      using r(1,2,3) a53 by (intro round_double_whole) simp_all
    have rem0: "0 \<le> ?a - ?act" using r(3) by simp
    have rem: "round_double (?a - ?act) = ?a - ?act"
      using r(4) rem0 a53 r(2) by (intro round_double_whole) simp_all
    have T': "T + (?a - ?act) \<in> \<int>" "0 \<le> T + (?a - ?act)"
      using Cons.prems(3,4) r(4) rem0 by simp_all
    have tot: "round_double (T + (?a - ?act)) = T + (?a - ?act)"
      using T' bound s0 r(2) by (intro round_double_whole) simp_all
    have "T + (?a - ?act) + sum_list (map allocated_amount al) < 2 ^ 53"
      using bound r(2) by linarith
    from Cons.IH[OF rest prest T' this] Some pr q act rem tot show ?thesis
      by (simp add: py_div_double_def py_div_def Let_def)
  qed
qed






subsection \<open>Fractional amounts are not\<close>












section \<open>The remainder of an order (C3)\<close>

text \<open>
  C3 as stated fails: redistribution adds to an order's quantity and actual amount and
  leaves its remainder as the first loop computed it. Here X is allocated 100000, ends
  with an actual amount of 120000 and still reports a remainder of 20000.
\<close>

theorem remainder_not_updated_counterexample:
  "calculate_buy_quantities cheap_first_lines cheap_first_prices
     = Inr [topped_order, stopped_order] \<and>
   remainder topped_order \<noteq> allocated_amount topped_order - actual_amount topped_order"
  by (simp add: cheap_first_returned) (simp add: topped_order_def)

text \<open>
  C3, amended: with positive prices and non-negative allocated amounts, every returned
  order has remainder = allocated amount - actual amount before redistribution, that is
  the allocated amount less \<open>\<lfloor>allocated / price\<rfloor>\<close> units; this remainder is at least 0 and
  below the price. Redistribution gave the order \<open>k \<ge> 0\<close> further units, so its actual
  amount is quantity times price and exceeds allocated amount - remainder by \<open>k\<close> prices.
\<close>

theorem order_remainder_is_pre_redistribution:
  assumes "\<forall>l\<in>set allocations. \<forall>price. current_prices (code l) = Some price \<longrightarrow> 0 < price"
      and "\<forall>l\<in>set allocations. 0 \<le> allocated_amount l"
      and "calculate_buy_quantities allocations current_prices = Inr buy_orders"
      and "order \<in> set buy_orders"
  shows "\<exists>k\<ge>0. quantity order = \<lfloor>allocated_amount order / current_price order\<rfloor> + k \<and>
               actual_amount order = real_of_int (quantity order) * current_price order \<and>
               remainder order = allocated_amount order - actual_amount order
                                   + real_of_int k * current_price order \<and>
               0 \<le> remainder order \<and> remainder order < current_price order"
proof -
  from assms(3) obtain r where run: "buy_quantities_run allocations current_prices = Inr (buy_orders, r)"
    by (auto simp: calculate_buy_quantities_def split: sum.splits)
  from run obtain bo tr where
    all: "list_all2 (resolves current_prices) (filter (\<lambda>l. current_prices (code l) \<noteq> None) allocations) bo"
    and top: "list_all2 topped_up (sort_key priority bo) buy_orders"
    by (rule run_cases)
  from list_all2_in_set2[OF top assms(4)] obtain o0 where o0: "o0 \<in> set bo" "topped_up o0 order"
    by auto
  from list_all2_in_set2[OF all o0(1)] obtain l where l: "l \<in> set allocations" "resolves current_prices l o0"
    by auto
  from o0(2) obtain k where k: "0 \<le> k"
    "order = o0\<lparr>quantity := quantity o0 + k,
                 actual_amount := actual_amount o0 + real_of_int k * current_price o0\<rparr>"
    by (auto simp: topped_up_def)
  from l assms(1) have pos: "0 < current_price o0" by (auto simp: resolves_def)
  from l assms(2) have nonneg: "0 \<le> allocated_amount o0" by (auto simp: resolves_def)
  from pos nonneg have q: "quantity o0 = \<lfloor>allocated_amount o0 / current_price o0\<rfloor>"
    using l(2) by (simp add: resolves_def py_int_def)
  have act: "actual_amount o0 = real_of_int (quantity o0) * current_price o0"
    and rem: "remainder o0 = allocated_amount o0 - actual_amount o0"
    using l(2) by (simp_all add: resolves_def)
  from floor_remainder_bounds[OF pos, of "allocated_amount o0"] q act rem
  have bounds: "0 \<le> remainder o0" "remainder o0 < current_price o0" by simp_all
  show ?thesis
    using k q act rem bounds by (intro exI[of _ k]) (simp add: algebra_simps)
qed

text \<open>The order for X: two units resolved, one more from redistribution.\<close>

theorem order_remainder_is_pre_redistribution_witness:
  "\<exists>k\<ge>0. quantity topped_order = 2 + k \<and> remainder topped_order = 20000 \<and>
     20000 = allocated_amount topped_order - actual_amount topped_order + real_of_int k * 40000"
proof -
  have nonneg: "\<forall>l\<in>set cheap_first_lines. 0 \<le> allocated_amount l"
    by (simp add: cheap_first_lines_def)
  have mem: "topped_order \<in> set [topped_order, stopped_order]" by simp
  from order_remainder_is_pre_redistribution[OF cheap_first_positive nonneg cheap_first_returned mem]
  show ?thesis by (simp add: topped_order_def)
qed

section \<open>Prices that are zero, negative or missing (C5)\<close>

text \<open>
  C5 as stated fails for a negative price: no check rejects it, the line is resolved
  with a negative quantity and the orders are returned.
\<close>

theorem negative_price_accepted_counterexample:
  "calculate_buy_quantities halted_lines [''X'' \<mapsto> - 30]
     = Inr [\<lparr>code = ''X'', name = ''X'', category = ''UNKNOWN'', allocated_amount = 100,
             priority = 1, current_price = - 30, quantity = - 3, actual_amount = 90,
             remainder = 10\<rparr>]"
  by (simp add: calculate_buy_quantities_def buy_quantities_run_def halted_lines_def
      py_div_def py_int_def)

text \<open>
  C5, amended: quantity resolution fails exactly when some allocation line's code maps
  to the price 0, and the failure is the division by zero; any other price, negative
  ones included, is accepted. A line whose code is absent from the price map is skipped:
  the result is the one of the list without that line.
\<close>

theorem zero_price_is_the_only_failure:
  "((\<exists>e. calculate_buy_quantities allocations current_prices = Inl e) \<longleftrightarrow>
      (\<exists>l\<in>set allocations. current_prices (code l) = Some 0)) \<and>
   (calculate_buy_quantities allocations current_prices = Inl e \<longrightarrow> e = ZeroDivisionError) \<and>
   (current_prices (code skipped) = None \<longrightarrow>
      calculate_buy_quantities (pre @ skipped # post) current_prices
        = calculate_buy_quantities (pre @ post) current_prices)"
proof (intro conjI impI)
  show "(\<exists>e. calculate_buy_quantities allocations current_prices = Inl e) \<longleftrightarrow>
      (\<exists>l\<in>set allocations. current_prices (code l) = Some 0)"
  proof
    assume "\<exists>e. calculate_buy_quantities allocations current_prices = Inl e"
    then have "\<not> (\<exists>os r. buy_quantities_run allocations current_prices = Inr (os, r))"
      by (auto simp: calculate_buy_quantities_def)
    with run_ok[of allocations current_prices]
    show "\<exists>l\<in>set allocations. current_prices (code l) = Some 0" by blast
  next
    assume "\<exists>l\<in>set allocations. current_prices (code l) = Some 0"
    from resolve_loop_zero_price[OF this]
    show "\<exists>e. calculate_buy_quantities allocations current_prices = Inl e"
      by (simp add: calculate_buy_quantities_def buy_quantities_run_def)
  qed
next
  assume err: "calculate_buy_quantities allocations current_prices = Inl e"
  then have "\<not> (\<exists>os r. buy_quantities_run allocations current_prices = Inr (os, r))"
    by (auto simp: calculate_buy_quantities_def)
  with run_ok[of allocations current_prices]
  have "\<exists>l\<in>set allocations. current_prices (code l) = Some 0" by blast
  from resolve_loop_zero_price[OF this] err
  show "e = ZeroDivisionError"
    by (simp add: calculate_buy_quantities_def buy_quantities_run_def)
next
  assume "current_prices (code skipped) = None"
  then have "resolve_loop (pre @ skipped # post) current_prices [] 0
               = resolve_loop (pre @ post) current_prices [] 0"
    by (simp add: resolve_loop_append split: sum.splits)
  then show "calculate_buy_quantities (pre @ skipped # post) current_prices
        = calculate_buy_quantities (pre @ post) current_prices"
    by (simp add: calculate_buy_quantities_def buy_quantities_run_def)
qed

theorem zero_price_is_the_only_failure_witness:
  "calculate_buy_quantities halted_lines [''Y'' \<mapsto> 0] = Inl ZeroDivisionError \<and>
   calculate_buy_quantities ([] @ hd halted_lines # tl halted_lines) [''Y'' \<mapsto> 30]
     = calculate_buy_quantities ([] @ tl halted_lines) [''Y'' \<mapsto> 30]"
proof -
  have zero: "\<exists>l\<in>set halted_lines. [''Y'' \<mapsto> 0::real] (code l) = Some 0"
    by (simp add: halted_lines_def)
  have absent: "[''Y'' \<mapsto> 30::real] (code (hd halted_lines)) = None"
    by (simp add: halted_lines_def)
  note cases = zero_price_is_the_only_failure
  from cases[of halted_lines "[''Y'' \<mapsto> 0]"] zero
  obtain e where e: "calculate_buy_quantities halted_lines [''Y'' \<mapsto> 0] = Inl e" by blast
  with cases[of halted_lines "[''Y'' \<mapsto> 0]" e] have "e = ZeroDivisionError" by blast
  with e absent cases[of _ "[''Y'' \<mapsto> 30]" _ "hd halted_lines" "[]" "tl halted_lines"]
  show ?thesis by blast
qed

section \<open>Redistribution is one forward pass (C8)\<close>

lemma round_double_ge_one:
  assumes "1 \<le> x"
  shows "1 \<le> round_double x"
proof -
  from assms have nz: "x \<noteq> 0" and ax: "\<bar>x\<bar> = x" by simp_all
  define e where "e = exponent x"
  note b = exponent_bounds[OF nz, folded e_def, unfolded ax]
  have p2: "0 < (2::real) powi j" for j by (rule zero_less_power_int) simp
  have e0: "0 \<le> e"
  proof -
    from assms b(2) have "(2::real) powi 0 < 2 powi (e + 1)" by simp
    then have "0 < e + 1" by (rule pow2_less_exp)
    then show ?thesis by simp
  qed
  have "real_of_int (2 ^ 52) = 2 powi e / 2 powi (e - 52)"
    by (simp add: power_int_diff)
  also have "\<dots> \<le> x / 2 powi (e - 52)"
    using b(1) p2[of "e - 52"] by (intro divide_right_mono) simp_all
  finally have "2 ^ 52 \<le> round_half_even (x / 2 powi (e - 52))"
    by (rule round_half_even_ge)
  then have "real_of_int (2 ^ 52) \<le> real_of_int (round_half_even (x / 2 powi (e - 52)))"
    by (simp only: of_int_le_iff)
  then have "real_of_int (2 ^ 52) * 2 powi (e - 52)
               \<le> real_of_int (round_half_even (x / 2 powi (e - 52))) * 2 powi (e - 52)"
    using p2[of "e - 52"] by (intro mult_right_mono) simp_all
  moreover have "real_of_int (2 ^ 52) * 2 powi (e - 52) = 2 powi e"
    by (simp add: power_int_diff)
  moreover have "(2::real) powi 0 \<le> 2 powi e"
    using e0 by (intro power_int_increasing) simp_all
  moreover have "round_double x
                   = real_of_int (round_half_even (x / 2 powi (e - 52))) * 2 powi (e - 52)"
    using nz by (simp add: round_double_def Let_def e_def)
  moreover have "(2::real) powi 0 = 1" by simp
  ultimately show ?thesis by linarith
qed

lemma served_then_stop:
  "served pre r pre' r' \<Longrightarrow> stops_at rest r' \<Longrightarrow>
   redistribute_remainder_double (pre @ rest) r = Inr (pre' @ rest, r')"
proof (induction pre r pre' r' rule: served.induct)
  case (1 r r')
  then show ?case by (cases rest) (simp_all add: stops_at_def)
next
  case (2 order rest0 r order' rest' r')
  let ?units = "py_int (round_double (r / current_price order))"
  let ?amount = "round_double (real_of_int ?units * current_price order)"
  from "2.prems"(1) have pos: "0 < current_price order" and aff: "current_price order \<le> r"
    and o': "order' = order\<lparr>quantity := quantity order + ?units,
                     actual_amount := round_double (actual_amount order + ?amount)\<rparr>"
    and rec: "served rest0 (round_double (r - ?amount)) rest' r'"
    by (simp_all add: Let_def)
  from pos aff have "1 \<le> r / current_price order" by simp
  then have "1 \<le> round_double (r / current_price order)" by (rule round_double_ge_one)
  then have k: "0 < ?units" by (simp add: py_int_def)
  from "2.IH"[OF refl refl rec "2.prems"(2)] pos aff k o' show ?case
    by (simp add: py_div_double_def Let_def)
qed simp_all

lemma served_exists:
  "\<forall>order\<in>set os. 0 < current_price order \<Longrightarrow>
   \<exists>pre rest pre' r'. os = pre @ rest \<and> served pre r pre' r' \<and> stops_at rest r'"
proof (induction os arbitrary: r)
  case Nil
  have "[] = [] @ ([]::buy_order list) \<and> served [] r [] r \<and> stops_at [] r"
    by (simp add: stops_at_def)
  then show ?case by blast
next
  case (Cons a os)
  show ?case
  proof (cases "r < current_price a")
    case True
    then have "a # os = [] @ (a # os) \<and> served [] r [] r \<and> stops_at (a # os) r"
      by (simp add: stops_at_def)
    then show ?thesis by blast
  next
    case False
    let ?units = "py_int (round_double (r / current_price a))"
    let ?amount = "round_double (real_of_int ?units * current_price a)"
    let ?a' = "a\<lparr>quantity := quantity a + ?units,
                  actual_amount := round_double (actual_amount a + ?amount)\<rparr>"
    from Cons.prems have "\<forall>order\<in>set os. 0 < current_price order" by simp
    from Cons.IH[OF this, of "round_double (r - ?amount)"]
    obtain pre rest pre' r' where d: "os = pre @ rest"
      "served pre (round_double (r - ?amount)) pre' r'" "stops_at rest r'" by blast
    with False Cons.prems
    have "a # os = (a # pre) @ rest \<and> served (a # pre) r (?a' # pre') r' \<and> stops_at rest r'"
      by (simp add: Let_def)
    then show ?thesis by blast
  qed
qed

lemma resolve_loop_double_prices:
  "resolve_loop_double al p bo T = Inr (os, r) \<Longrightarrow> order \<in> set os \<Longrightarrow>
   order \<in> set bo \<or> (\<exists>l\<in>set al. p (code l) = Some (current_price order))"
proof (induction al arbitrary: bo T)
  case Nil
  then show ?case by simp
next
  case (Cons l al)
  show ?case
  proof (cases "p (code l)")
    case None
    with Cons.prems Cons.IH[of bo T] show ?thesis by auto
  next
    case (Some price)
    with Cons.prems(1) obtain bo' T' where
      step: "resolve_loop_double al p bo' T' = Inr (os, r)"
      and bo': "set bo' = insert (last bo') (set bo)" "current_price (last bo') = price"
      by (auto simp: py_div_double_def Let_def split: if_splits)
    from Cons.IH[OF step Cons.prems(2)] bo' Some show ?thesis by auto
  qed
qed

text \<open>
  C8: when quantity resolution has money to redistribute, it makes a single forward pass
  over the resolved orders in ascending order of priority. With positive prices, the
  sorted orders split into the orders before the first one whose price exceeds the money
  then left, and the rest. Every order before it is served, in turn, with as many units
  as the money left pays; the pass stops entirely at that first order: it and every later
  order, cheaper or not, are returned as they were, and the money left there is what
  remains unspent. This split exists, and whatever split has these properties gives the
  result of the run. The statement is about the run in double precision.
\<close>

theorem redistribution_single_forward_pass:
  assumes "resolve_loop_double allocations current_prices [] 0 = Inr (resolved, total_remainder)"
      and "0 < total_remainder"
      and "\<forall>l\<in>set allocations. \<forall>price. current_prices (code l) = Some price \<longrightarrow> 0 < price"
  shows "(\<exists>pre rest pre' r'.
            sort_key priority resolved = pre @ rest \<and>
            served pre total_remainder pre' r' \<and> stops_at rest r') \<and>
         (\<forall>pre rest pre' r'.
            sort_key priority resolved = pre @ rest \<and>
            served pre total_remainder pre' r' \<and> stops_at rest r' \<longrightarrow>
            buy_quantities_run_double allocations current_prices = Inr (pre' @ rest, r'))"
proof
  have "0 < current_price order" if "order \<in> set resolved" for order
    using resolve_loop_double_prices[OF assms(1) that] assms(3) by auto
  then have "\<forall>order\<in>set (sort_key priority resolved). 0 < current_price order" by simp
  from served_exists[OF this]
  show "\<exists>pre rest pre' r'.
            sort_key priority resolved = pre @ rest \<and>
            served pre total_remainder pre' r' \<and> stops_at rest r'" .
next
  show "\<forall>pre rest pre' r'.
            sort_key priority resolved = pre @ rest \<and>
            served pre total_remainder pre' r' \<and> stops_at rest r' \<longrightarrow>
            buy_quantities_run_double allocations current_prices = Inr (pre' @ rest, r')"
  proof (intro allI impI, elim conjE)
    fix pre rest pre' r'
    assume "sort_key priority resolved = pre @ rest"
       and "served pre total_remainder pre' r'" and "stops_at rest r'"
    with served_then_stop[of pre total_remainder pre' r' rest] assms(1,2)
    show "buy_quantities_run_double allocations current_prices = Inr (pre' @ rest, r')"
      by (simp add: buy_quantities_run_double_def)
  qed
qed

text \<open>
  Lines given as Y, X, Z: sorted, X comes first and takes one more unit of the 74000, Y
  is out of reach of the 34000 left, and Z, which they would pay six times over, gets
  nothing.
\<close>

theorem redistribution_single_forward_pass_witness:
  "buy_quantities_run_double unsorted_lines unsorted_prices
     = Inr ([topped_order] @ [stopped_order, cheap_last], 34000) \<and>
   map priority [topped_order, stopped_order, cheap_last] = [1, 2, 3] \<and>
   current_price cheap_last \<le> 34000"
proof -
  let ?x = "topped_order\<lparr>quantity := 2, actual_amount := 80000\<rparr>"
  have whole: "\<forall>l\<in>set unsorted_lines. allocated_amount l \<in> \<int> \<and> 0 \<le> allocated_amount l"
    by (simp add: unsorted_lines_def)
  have pwhole: "\<forall>l\<in>set unsorted_lines. \<forall>price. unsorted_prices (code l) = Some price
                  \<longrightarrow> price \<in> \<int> \<and> 0 < price"
    by (simp add: unsorted_lines_def unsorted_prices_def)
  have "resolve_loop_double unsorted_lines unsorted_prices [] 0
          = resolve_loop unsorted_lines unsorted_prices [] 0"
    using whole pwhole by (intro resolve_loop_double_whole) (simp_all add: unsorted_lines_def)
  also have "\<dots> = Inr ([stopped_order, ?x, cheap_last], 74000)"
    by (simp add: unsorted_lines_def unsorted_prices_def stopped_order_def topped_order_def
        cheap_last_def py_div_def py_int_def)
  finally have res: "resolve_loop_double unsorted_lines unsorted_prices [] 0
                       = Inr ([stopped_order, ?x, cheap_last], 74000)" .
  have total: "(0::real) < 74000" by simp
  have pos: "\<forall>l\<in>set unsorted_lines. \<forall>price. unsorted_prices (code l) = Some price \<longrightarrow> 0 < price"
    using pwhole by blast
  have sorted: "sort_key priority [stopped_order, ?x, cheap_last] = [?x] @ [stopped_order, cheap_last]"
    by (simp add: stopped_order_def topped_order_def cheap_last_def)
  have units: "py_int (round_double (37 / 20)) = 1"
    using whole_quotient_truncates(1)[of 74000 40000] by simp
  have exact: "round_double 40000 = 40000" "round_double 120000 = 120000"
    "round_double 34000 = 34000"
    by (rule round_double_whole; simp)+
  have serve: "served [?x] 74000 [topped_order] 34000"
    by (simp add: topped_order_def units exact Let_def)
  have stop: "stops_at [stopped_order, cheap_last] 34000"
    by (simp add: stops_at_def stopped_order_def)
  from redistribution_single_forward_pass[OF res total pos] sorted serve stop
  have "buy_quantities_run_double unsorted_lines unsorted_prices
     = Inr ([topped_order] @ [stopped_order, cheap_last], 34000)" by blast
  then show ?thesis
    by (simp add: topped_order_def stopped_order_def cheap_last_def)
qed

section \<open>Properties of allocation\<close>


lemma for_each_nth:
  "for_each f xs = Inr ys \<Longrightarrow> length ys = length xs \<and> (\<forall>i<length xs. f (xs ! i) = Inr (ys ! i))"
proof (induction xs arbitrary: ys)
  case Nil
  then show ?case by simp
next
  case (Cons x xs)
  then show ?case
    by (auto simp: nth_Cons' split: sum.splits)
qed


subsection \<open>Custom ratios (C4)\<close>


















subsection \<open>Unknown method names (C7)\<close>

text \<open>
  C7 as stated fails in DIP mode: an unknown dip method is not an error, the last
  branch of \<^verbatim>\<open>_calculate_dip_allocation\<close> allocates equally.
\<close>

theorem unknown_dip_method_counterexample:
  "calculate_allocation (scenario_allocator\<lparr>dip_allocation_method := Some ''BEST''\<rparr>) 300000 ''DIP''
     = Inr [\<lparr>code = ''A'', name = ''A'', category = ''UNKNOWN'', allocated_amount = 150000,
             priority = 1, ratio = 1 / 2, weight = None\<rparr>,
            \<lparr>code = ''B'', name = ''B'', category = ''UNKNOWN'', allocated_amount = 150000,
             priority = 2, ratio = 1 / 2, weight = None\<rparr>]"
  by (simp add: scenario_allocator_def allocation_defs)

text \<open>
  C7, amended: in REGULAR mode, allocation fails with the error "Unknown allocation
  method" for an allocation method outside EQUAL, WEIGHTED, CUSTOM; in DIP mode a dip
  allocation method outside FOCUS, EQUAL, WEIGHTED is not an error: the result is that of
  equal allocation.
\<close>

theorem unknown_method_names:
  "(allocation_method a \<notin> {''EQUAL'', ''WEIGHTED'', ''CUSTOM''} \<longrightarrow>
      calculate_allocation a total_amount ''REGULAR''
        = Inl (ValueError (''Unknown allocation method: '' @ allocation_method a))) \<and>
   (dict_get (dip_allocation_method a) ''FOCUS'' \<notin> {''FOCUS'', ''EQUAL'', ''WEIGHTED''} \<longrightarrow>
      calculate_allocation a total_amount ''DIP'' = equal_allocation a total_amount)"
  by (simp add: calculate_allocation_def calculate_regular_allocation_def
      calculate_dip_allocation_def)

theorem unknown_method_names_witness:
  "calculate_allocation (scenario_allocator\<lparr>allocation_method := ''BEST''\<rparr>) 300000 ''REGULAR''
     = Inl (ValueError ''Unknown allocation method: BEST'') \<and>
   calculate_allocation (scenario_allocator\<lparr>dip_allocation_method := Some ''BEST''\<rparr>) 300000 ''DIP''
     = equal_allocation (scenario_allocator\<lparr>dip_allocation_method := Some ''BEST''\<rparr>) 300000"
  using unknown_method_names[of "scenario_allocator\<lparr>allocation_method := ''BEST''\<rparr>" 300000]
        unknown_method_names[of "scenario_allocator\<lparr>dip_allocation_method := Some ''BEST''\<rparr>" 300000]
  by (simp add: scenario_allocator_def dict_get_def)

section \<open>Properties of category limits\<close>



lemma adjust_line_untouched:
  "max_allocation limits (category alloc) = None \<or> max_allocation limits (category alloc) = Some 0
   \<Longrightarrow> adjust_line limits totals total_amount alloc = Inr alloc"
  by (auto simp: adjust_line_def truthy_def)

lemma category_sum_nonneg:
  "\<forall>l\<in>set al. 0 \<le> allocated_amount l \<Longrightarrow> 0 \<le> category_sum al c"
  by (auto simp: category_sum_def intro!: sum_list_nonneg)





subsection \<open>Limits only scale down (C6)\<close>




subsection \<open>A limit of zero, or none (C10)\<close>

text \<open>
  C10: a line whose category has a limit of 0, or no limit, is never scaled. The body of
  the loop returns it as it is, without reading the totals, and in the list that
  \<^verbatim>\<open>_apply_category_limits\<close> returns it stands unchanged at its position, even though
  the share of its category exceeds a cap of 0.
\<close>

theorem zero_or_absent_limit_never_scales:
  assumes "max_allocation (category_limits a) (category (allocations ! i)) = None \<or>
           max_allocation (category_limits a) (category (allocations ! i)) = Some 0"
      and "i < length allocations"
      and "apply_category_limits a allocations total_amount = Inr adjusted"
  shows "adjust_line (category_limits a) totals total_amount (allocations ! i) = Inr (allocations ! i) \<and>
         length adjusted = length allocations \<and> adjusted ! i = allocations ! i"
proof (cases "category_limits a = []")
  case True
  with assms adjust_line_untouched[OF assms(1)] show ?thesis
    by (simp add: apply_category_limits_def)
next
  case False
  with assms(3) have "for_each (adjust_line (category_limits a)
           (category_totals allocations Map.empty) total_amount) allocations = Inr adjusted"
    by (simp add: apply_category_limits_def)
  from for_each_nth[OF this] assms(2)
  have "length adjusted = length allocations"
    and "adjust_line (category_limits a) (category_totals allocations Map.empty) total_amount
           (allocations ! i) = Inr (adjusted ! i)" by simp_all
  with adjust_line_untouched[OF assms(1)] show ?thesis by simp
qed

text \<open>TECH capped at 0 with a share of 2/3, BOND without a cap: both lines are returned as given.\<close>

theorem zero_or_absent_limit_never_scales_witness:
  "apply_category_limits (capped_allocator 0) tech_bond_lines 300000 = Inr tech_bond_lines \<and>
   max_allocation (category_limits (capped_allocator 0)) ''TECH'' = Some 0 \<and>
   max_allocation (category_limits (capped_allocator 0)) ''BOND'' = None \<and>
   0 < category_sum tech_bond_lines ''TECH'' / 300000"
proof -
  have z: "max_allocation (category_limits (capped_allocator 0)) (category (tech_bond_lines ! 0)) = Some 0"
    and n: "max_allocation (category_limits (capped_allocator 0)) (category (tech_bond_lines ! 1)) = None"
    by (simp_all add: max_allocation_def capped_allocator_def tech_bond_lines_def)
  have ev: "apply_category_limits (capped_allocator 0) tech_bond_lines 300000 = Inr tech_bond_lines"
    by (simp add: apply_category_limits_def capped_allocator_def tech_bond_lines_def
        adjust_line_def max_allocation_def truthy_def)
  have len: "0 < length tech_bond_lines" "1 < length tech_bond_lines"
    by (simp_all add: tech_bond_lines_def)
  from zero_or_absent_limit_never_scales[OF disjI2[OF z] len(1) ev]
       zero_or_absent_limit_never_scales[OF disjI1[OF n] len(2) ev]
  have "apply_category_limits (capped_allocator 0) tech_bond_lines 300000 = Inr tech_bond_lines"
    using ev by simp
  moreover have "0 < category_sum tech_bond_lines ''TECH'' / 300000"
    by (simp add: category_sum_def tech_bond_lines_def)
  ultimately show ?thesis using z n
    by (simp add: tech_bond_lines_def)
qed

section \<open>The narrowed universe of a dip buy (C9)\<close>

text \<open>
  When \<^verbatim>\<open>execute_dip_buy\<close> returns without an error, the allocator is as it was.
\<close>

lemma execute_dip_buy_restores:
  "snd (execute_dip_buy st balance route opportunities) = st \<or>
   (\<exists>e. fst (execute_dip_buy st balance route opportunities) = Inl e)"
  by (auto simp: execute_dip_buy_def Let_def split: sum.splits)

text \<open>
  C9 at a failing input: the universe is A, B and the only opportunity is A at the price
  0. The division in \<^verbatim>\<open>calculate_buy_quantities\<close> raises after the universe has been
  narrowed to A and before it is restored, so the call ends with the error and leaves the
  allocator with the universe A alone.
\<close>

theorem dip_narrowing_survives_error:
  "execute_dip_buy halted_strategy 1000000 route [halted_opportunity]
     = (Inl ZeroDivisionError,
        halted_strategy\<lparr>the_allocator := scenario_allocator\<lparr>active_etfs := [hd (active_etfs scenario_allocator)]\<rparr>\<rparr>) \<and>
   map etf_code (active_etfs (the_allocator halted_strategy)) = [''A'', ''B''] \<and>
   map etf_code (active_etfs (the_allocator
       (snd (execute_dip_buy halted_strategy 1000000 route [halted_opportunity])))) = [''A'']"
  by (simp add: execute_dip_buy_def halted_strategy_def halted_opportunity_def prices_of_def
      scenario_allocator_def allocation_defs calculate_buy_quantities_def buy_quantities_run_def)

end
